theory Spec2Isabelle
  imports Main "HOL-Library.Word"
begin

section \<open>The csrf package: data model\<close>

text \<open>
  The package has one source file, \<^verbatim>\<open>csrf.go\<close>. Its state is the token map of a
  \<^verbatim>\<open>DefaultTokenProvider\<close>; every method takes the mutex for its whole body, so each
  method is one function from the state before the call to the state after it. What a
  method reads from its environment during the call (the clock, the UUID generator, the
  order in which \<^verbatim>\<open>range\<close> walks the map) is an argument of the function.
\<close>

subsection \<open>Errors and panics\<close>

text \<open>
  The two package-level error values are distinct pointers made by \<^verbatim>\<open>errors.New\<close>;
  \<open>ExternalError\<close> stands for an error made outside the package (the one
  \<^verbatim>\<open>uuid.NewRandom\<close> returns when its reader fails).
\<close>

datatype error =
    ErrInvalidToken
  | errInconsistentTokenBetweenSources
  | ExternalError string

text \<open>
  A panic is a result of its own, one constructor per place of the source that panics:
  \<^verbatim>\<open>panic(err)\<close> in \<^verbatim>\<open>Get\<close>, \<^verbatim>\<open>panic("...")\<close> in \<^verbatim>\<open>Validate\<close>, and the run-time
  panic of the unchecked type assertion \<^verbatim>\<open>.(string)\<close> in \<^verbatim>\<open>ContextTokenSource\<close>.
\<close>

datatype panic =
    PanicError error
  | PanicString string
  | PanicTypeAssertion

subsection \<open>Time\<close>

text \<open>
  A \<^verbatim>\<open>time.Time\<close> is the number of nanoseconds since the Unix epoch, a
  \<^verbatim>\<open>time.Duration\<close> a number of nanoseconds. \<^verbatim>\<open>Unix()\<close> is the number of whole
  seconds, rounded down. The package does no arithmetic of its own on these values (it
  calls \<^verbatim>\<open>Add\<close> and \<^verbatim>\<open>Unix\<close> and compares two \<^verbatim>\<open>int64\<close> with \<^verbatim>\<open><\<close>), so they are
  integers here.
\<close>

type_synonym Time = int
type_synonym Duration = int

definition Add :: "Time \<Rightarrow> Duration \<Rightarrow> Time" where
  "Add t d = t + d"

definition Unix :: "Time \<Rightarrow> int" where
  "Unix t = t div 1000000000"

subsection \<open>UUIDs\<close>

text \<open>
  \<^verbatim>\<open>uuid.UUID\<close> is \<^verbatim>\<open>[16]byte\<close>. \<^verbatim>\<open>String()\<close> writes the bytes in lower-case
  hexadecimal, in groups of 4, 2, 2, 2 and 6 bytes separated by \<^verbatim>\<open>-\<close>; a byte \<open>v\<close> is
  the two digits \<^verbatim>\<open>hextable[v>>4]\<close> and \<^verbatim>\<open>hextable[v&0x0f]\<close>.
\<close>

type_synonym byte = "8 word"
type_synonym UUID = "byte list"

definition hextable :: string where
  "hextable = ''0123456789abcdef''"

definition hex_byte :: "byte \<Rightarrow> string" where
  "hex_byte v = [hextable ! (unat v div 16), hextable ! (unat v mod 16)]"

fun hex_Encode :: "byte list \<Rightarrow> string" where
  "hex_Encode [] = []"
| "hex_Encode (v # src) = hex_byte v @ hex_Encode src"

definition String :: "UUID \<Rightarrow> string" where
  "String uuid =
     hex_Encode (take 4 uuid) @ ''-'' @
     hex_Encode (take 2 (drop 4 uuid)) @ ''-'' @
     hex_Encode (take 2 (drop 6 uuid)) @ ''-'' @
     hex_Encode (take 2 (drop 8 uuid)) @ ''-'' @
     hex_Encode (drop 10 uuid)"

subsection \<open>The token provider\<close>

text \<open>
  \<^verbatim>\<open>DefaultTokenProvider\<close>: the map from token to its expiry in Unix seconds, and the
  time to live. The mutex is the atomicity of each operation below.
\<close>

record DefaultTokenProvider =
  tokens :: "string \<rightharpoonup> int"
  token_ttl :: Duration

text \<open>
  What the environment answers during one call of \<^verbatim>\<open>Get\<close>: the reading of
  \<^verbatim>\<open>time.Now()\<close> and the result of \<^verbatim>\<open>uuid.NewRandom()\<close> (\<open>Inl\<close> when
  \<^verbatim>\<open>err != nil\<close>). \<^verbatim>\<open>Check\<close> and \<^verbatim>\<open>Validate\<close> read the clock only and take its reading.
\<close>

record world =
  time_Now :: Time
  uuid_NewRandom :: "error + UUID"

text \<open>
  The interface \<^verbatim>\<open>TokenProvider\<close>, over any state \<open>'s\<close> an implementation keeps.
  \<^verbatim>\<open>Get\<close> returns \<^verbatim>\<open>(string, error)\<close> or panics; \<^verbatim>\<open>Check\<close> returns an error or nil.
\<close>

record 's TokenProvider =
  Get :: "world \<Rightarrow> 's \<Rightarrow> (panic + string \<times> error option) \<times> 's"
  Check :: "Time \<Rightarrow> string \<Rightarrow> 's \<Rightarrow> error option \<times> 's"





definition DefaultTokenProvider_Get ::
  "world \<Rightarrow> DefaultTokenProvider \<Rightarrow> (panic + string \<times> error option) \<times> DefaultTokenProvider" where
  "DefaultTokenProvider_Get w dtp =
     (case uuid_NewRandom w of
        Inl err \<Rightarrow> (Inl (PanicError err), dtp)
      | Inr uid \<Rightarrow>
          (let token = String uid
           in (Inr (token, None),
               dtp\<lparr>tokens := (tokens dtp)(token \<mapsto> Unix (Add (time_Now w) (token_ttl dtp)))\<rparr>)))"

definition DefaultTokenProvider_Check ::
  "Time \<Rightarrow> string \<Rightarrow> DefaultTokenProvider \<Rightarrow> error option \<times> DefaultTokenProvider" where
  "DefaultTokenProvider_Check now token dtp =
     (case tokens dtp token of
        None \<Rightarrow> (Some ErrInvalidToken, dtp)
      | Some expire_at \<Rightarrow>
          if \<not> (Unix now < expire_at) then (Some ErrInvalidToken, dtp)
          else (None, dtp))"

text \<open>
  \<^verbatim>\<open>NewDefaultTokenProvider\<close> makes the empty map and sets no other field, so
  \<^verbatim>\<open>token_ttl\<close> has its zero value; the goroutine it starts is \<open>gc\<close> above.
\<close>

definition NewDefaultTokenProvider :: DefaultTokenProvider where
  "NewDefaultTokenProvider = \<lparr>tokens = Map.empty, token_ttl = 0\<rparr>"

definition DefaultTokenProvider_impl :: "DefaultTokenProvider TokenProvider" where
  "DefaultTokenProvider_impl = \<lparr>Get = DefaultTokenProvider_Get, Check = DefaultTokenProvider_Check\<rparr>"

text \<open>
  A sequence of calls of \<^verbatim>\<open>Get\<close>, one per reading of the environment, on the provider
  the previous call left: the tokens returned, in order, or the first panic.
\<close>

fun Get_calls :: "world list \<Rightarrow> DefaultTokenProvider \<Rightarrow> (panic + string list) \<times> DefaultTokenProvider" where
  "Get_calls [] dtp = (Inr [], dtp)"
| "Get_calls (w # ws) dtp =
     (case DefaultTokenProvider_Get w dtp of
        (Inl p, dtp') \<Rightarrow> (Inl p, dtp')
      | (Inr (token, err), dtp') \<Rightarrow>
          (case Get_calls ws dtp' of
             (Inl p, dtp'') \<Rightarrow> (Inl p, dtp'')
           | (Inr issued, dtp'') \<Rightarrow> (Inr (token # issued), dtp'')))"

subsection \<open>Requests and token sources\<close>

text \<open>
  Of an \<^verbatim>\<open>*http.Request\<close> the sources read the values of its context, its header and
  its parsed form. A context value is an \<^verbatim>\<open>any\<close>: nil, a string, or something else.
  Context keys compare by type and value, so the package's own key type is a constructor.
\<close>

datatype any = AnyNil | AnyString string | AnyOther

datatype context_key = csrf_token_context_key int | foreign_key string

record Request =
  Context :: "context_key \<rightharpoonup> any"
  Header :: "string \<rightharpoonup> string list"
  Form :: "string \<rightharpoonup> string list"

definition Context_Value :: "Request \<Rightarrow> context_key \<Rightarrow> any" where
  "Context_Value r key = (case Context r key of None \<Rightarrow> AnyNil | Some v \<Rightarrow> v)"

definition Header_Get :: "Request \<Rightarrow> string \<Rightarrow> string" where
  "Header_Get r key = (case Header r key of None \<Rightarrow> [] | Some [] \<Rightarrow> [] | Some (v # vs) \<Rightarrow> v)"

definition FormValue :: "Request \<Rightarrow> string \<Rightarrow> string" where
  "FormValue r key = (case Form r key of None \<Rightarrow> [] | Some [] \<Rightarrow> [] | Some (v # vs) \<Rightarrow> v)"

type_synonym TokenSourceFunc = "Request \<Rightarrow> panic + string"

definition ContextTokenSource :: TokenSourceFunc where
  "ContextTokenSource r =
     (case Context_Value r (csrf_token_context_key 0) of
        AnyString s \<Rightarrow> Inr s
      | AnyNil \<Rightarrow> Inl PanicTypeAssertion
      | AnyOther \<Rightarrow> Inl PanicTypeAssertion)"

definition HeaderTokenSource :: TokenSourceFunc where
  "HeaderTokenSource r = Inr (Header_Get r ''X-Csrf-Token'')"

definition FormTokenSource :: "string \<Rightarrow> TokenSourceFunc" where
  "FormTokenSource field = (\<lambda>r. Inr (FormValue r field))"

subsection \<open>The validator\<close>

record 's CSRF =
  TokenProvider :: "'s TokenProvider"

definition New :: "'s TokenProvider \<Rightarrow> 's CSRF" where
  "New tp = \<lparr>TokenProvider = tp\<rparr>"

definition GetToken :: "'s CSRF \<Rightarrow> world \<Rightarrow> 's \<Rightarrow> (panic + string \<times> error option) \<times> 's" where
  "GetToken c w s = Get (TokenProvider c) w s"

text \<open>
  The loop of \<^verbatim>\<open>Validate\<close> over the sources, with the variable \<^verbatim>\<open>token\<close>: it ends
  with a panic of a source, with the early \<^verbatim>\<open>return\<close> of the inconsistency error, or
  with the final value of \<^verbatim>\<open>token\<close>.
\<close>

fun Validate_loop :: "Request \<Rightarrow> string \<Rightarrow> TokenSourceFunc list \<Rightarrow> panic + (error + string)" where
  "Validate_loop r token [] = Inr (Inr token)"
| "Validate_loop r token (source # sources) =
     (if token = []
      then (case source r of
              Inl p \<Rightarrow> Inl p
            | Inr v \<Rightarrow> Validate_loop r v sources)
      else (case source r of
              Inl p \<Rightarrow> Inl p
            | Inr v \<Rightarrow>
                if token \<noteq> v then Inr (Inl errInconsistentTokenBetweenSources)
                else Validate_loop r token sources))"

definition Validate ::
  "'s CSRF \<Rightarrow> Time \<Rightarrow> Request \<Rightarrow> TokenSourceFunc list \<Rightarrow> 's \<Rightarrow> (panic + error option) \<times> 's" where
  "Validate c now r sources s =
     (if length sources = 0 then (Inl (PanicString ''`sources` paramter is required''), s)
      else (case Validate_loop r [] sources of
              Inl p \<Rightarrow> (Inl p, s)
            | Inr (Inl err) \<Rightarrow> (Inr (Some err), s)
            | Inr (Inr token) \<Rightarrow>
                if token = [] then (Inr (Some ErrInvalidToken), s)
                else (case Check (TokenProvider c) now token s of
                        (err, s') \<Rightarrow> (Inr err, s'))))"

text \<open>
  A provider that only counts the calls it receives: its state is the pair of the
  numbers of \<^verbatim>\<open>Get\<close> and \<^verbatim>\<open>Check\<close> calls so far.
\<close>

definition counting_provider :: "(nat \<times> nat) TokenProvider" where
  "counting_provider =
     \<lparr>Get = (\<lambda>w (g, c). (Inr ([], None), (Suc g, c))),
      Check = (\<lambda>now token (g, c). (None, (g, Suc c)))\<rparr>"

section \<open>Properties of the token provider\<close>

text \<open>\<^verbatim>\<open>Check\<close> reads the map and never writes it.\<close>

lemma Check_keeps_state: "snd (DefaultTokenProvider_Check now token dtp) = dtp"
  by (simp add: DefaultTokenProvider_Check_def split: option.splits)

text \<open>
  C1. A \<^verbatim>\<open>Check\<close> of an issued token before its expiry returns nil, but it does not
  remove the entry: the store after the call is the store before it, and a second
  \<^verbatim>\<open>Check\<close> of the same token returns nil again instead of \<^verbatim>\<open>ErrInvalidToken\<close>. Here a
  token is issued at second 0 with a time to live of 60 seconds and checked at seconds 1
  and 2.
\<close>

theorem Check_does_not_consume:
  "DefaultTokenProvider_Get
     \<lparr>time_Now = 0, uuid_NewRandom = Inr [0x12,0x34,0x56,0x78,0x9a,0xbc,0x4d,0xef,0x81,0x23,0x45,0x67,0x89,0xab,0xcd,0xef]\<rparr>
     \<lparr>tokens = Map.empty, token_ttl = 60000000000\<rparr>
   = (Inr (''12345678-9abc-4def-8123-456789abcdef'', None),
      \<lparr>tokens = [''12345678-9abc-4def-8123-456789abcdef'' \<mapsto> 60], token_ttl = 60000000000\<rparr>)
   \<and> DefaultTokenProvider_Check 1000000000
       ''12345678-9abc-4def-8123-456789abcdef''
       \<lparr>tokens = [''12345678-9abc-4def-8123-456789abcdef'' \<mapsto> 60], token_ttl = 60000000000\<rparr>
     = (None, \<lparr>tokens = [''12345678-9abc-4def-8123-456789abcdef'' \<mapsto> 60], token_ttl = 60000000000\<rparr>)
   \<and> DefaultTokenProvider_Check 2000000000
       ''12345678-9abc-4def-8123-456789abcdef''
       \<lparr>tokens = [''12345678-9abc-4def-8123-456789abcdef'' \<mapsto> 60], token_ttl = 60000000000\<rparr>
     = (None, \<lparr>tokens = [''12345678-9abc-4def-8123-456789abcdef'' \<mapsto> 60], token_ttl = 60000000000\<rparr>)"
  by (simp add: DefaultTokenProvider_Get_def DefaultTokenProvider_Check_def String_def hex_byte_def
      hextable_def Unix_def Add_def Let_def)

text \<open>
  C4. For a stored token whose expiry is at or before the second of the call,
  \<^verbatim>\<open>Check\<close> returns \<^verbatim>\<open>ErrInvalidToken\<close> although the entry is still in the map, and the
  provider after the call is the provider before it.
\<close>

theorem Check_expired_invalid:
  assumes "tokens dtp t = Some expire_at" and "expire_at \<le> Unix now"
  shows "DefaultTokenProvider_Check now t dtp = (Some ErrInvalidToken, dtp)"
  using assms by (simp add: DefaultTokenProvider_Check_def)

theorem Check_expired_invalid_witness:
  "tokens \<lparr>tokens = [''t'' \<mapsto> 100], token_ttl = 0\<rparr> ''t'' = Some 100
   \<and> (100::int) \<le> Unix 100000000000
   \<and> DefaultTokenProvider_Check 100000000000 ''t''
        \<lparr>tokens = [''t'' \<mapsto> 100], token_ttl = 0\<rparr>
      = (Some ErrInvalidToken, \<lparr>tokens = [''t'' \<mapsto> 100], token_ttl = 0\<rparr>)"
  using Check_expired_invalid [of "\<lparr>tokens = [''t'' \<mapsto> 100], token_ttl = 0\<rparr>" "''t''" 100
      "100000000000"]
  by (simp add: Unix_def)

text \<open>
  C10. \<^verbatim>\<open>Get\<close> panics with the error of \<^verbatim>\<open>uuid.NewRandom\<close> when there is one and
  otherwise returns the token with a nil error; \<^verbatim>\<open>GetToken\<close> on this provider returns
  what \<^verbatim>\<open>Get\<close> returns. Neither ever returns a non-nil error.
\<close>

theorem Get_never_returns_error:
  "fst (DefaultTokenProvider_Get w dtp) =
     (case uuid_NewRandom w of Inl err \<Rightarrow> Inl (PanicError err) | Inr uid \<Rightarrow> Inr (String uid, None))
   \<and> fst (GetToken (New DefaultTokenProvider_impl) w dtp) = fst (DefaultTokenProvider_Get w dtp)
   \<and> (\<forall>token err. fst (DefaultTokenProvider_Get w dtp) \<noteq> Inr (token, Some err))
   \<and> (\<forall>token err. fst (GetToken (New DefaultTokenProvider_impl) w dtp) \<noteq> Inr (token, Some err))"
  by (simp add: DefaultTokenProvider_Get_def GetToken_def New_def DefaultTokenProvider_impl_def Let_def
      split: sum.splits)

section \<open>Properties of token issuance\<close>

text \<open>The text form of a UUID determines its sixteen bytes.\<close>

lemma hextable_distinct: "distinct hextable" and hextable_length: "length hextable = 16"
  by (simp_all add: hextable_def)

lemma hex_byte_inj: "hex_byte a = hex_byte b \<Longrightarrow> a = b"
proof -
  assume h: "hex_byte a = hex_byte b"
  have la: "unat a div 16 < 16" and lb: "unat b div 16 < 16"
  proof -
    have "unat a < 2 ^ 8" and "unat b < 2 ^ 8"
      using unsigned_less [of a, where 'a = nat] unsigned_less [of b, where 'a = nat] by simp_all
    then show "unat a div 16 < 16" and "unat b div 16 < 16" by simp_all
  qed
  have "hextable ! (unat a div 16) = hextable ! (unat b div 16)"
    and "hextable ! (unat a mod 16) = hextable ! (unat b mod 16)"
    using h by (simp_all add: hex_byte_def)
  then have "unat a div 16 = unat b div 16" and "unat a mod 16 = unat b mod 16"
    using la lb by (simp_all add: nth_eq_iff_index_eq hextable_distinct hextable_length)
  then have "unat a = unat b"
    by (metis div_mult_mod_eq)
  then show "a = b" by (simp add: word_unat_eq_iff)
qed

lemma hex_byte_length: "length (hex_byte v) = 2"
  by (simp add: hex_byte_def)

lemma hex_Encode_length: "length (hex_Encode src) = 2 * length src"
  by (induction src) (simp_all add: hex_byte_length)

lemma hex_Encode_inj: "hex_Encode xs = hex_Encode ys \<Longrightarrow> xs = ys"
proof (induction xs arbitrary: ys)
  case Nil
  then show ?case using hex_Encode_length [of ys] by (cases ys) (simp_all add: hex_byte_def)
next
  case (Cons x xs)
  show ?case
  proof (cases ys)
    case Nil
    with Cons.prems show ?thesis by (simp add: hex_byte_def)
  next
    case (Cons y ys')
    with Cons.prems have "hex_byte x @ hex_Encode xs = hex_byte y @ hex_Encode ys'" by simp
    then have "hex_byte x = hex_byte y" and "hex_Encode xs = hex_Encode ys'"
      by (simp_all add: hex_byte_length)
    then show ?thesis using Cons Cons.IH hex_byte_inj by simp
  qed
qed

lemma String_inj:
  assumes "String u = String v" and "length u = 16" and "length v = 16"
  shows "u = v"
proof -
  have split: "x = take 4 x @ take 2 (drop 4 x) @ take 2 (drop 6 x) @ take 2 (drop 8 x) @ drop 10 x"
    for x :: UUID
  proof -
    have "drop 8 x = take 2 (drop 8 x) @ drop 10 x"
      using append_take_drop_id [of 2 "drop 8 x"] by simp
    moreover have "drop 6 x = take 2 (drop 6 x) @ drop 8 x"
      using append_take_drop_id [of 2 "drop 6 x"] by simp
    moreover have "drop 4 x = take 2 (drop 4 x) @ drop 6 x"
      using append_take_drop_id [of 2 "drop 4 x"] by simp
    moreover have "x = take 4 x @ drop 4 x" by simp
    ultimately show ?thesis by metis
  qed
  from assms have
    "hex_Encode (take 4 u) = hex_Encode (take 4 v)"
    "hex_Encode (take 2 (drop 4 u)) = hex_Encode (take 2 (drop 4 v))"
    "hex_Encode (take 2 (drop 6 u)) = hex_Encode (take 2 (drop 6 v))"
    "hex_Encode (take 2 (drop 8 u)) = hex_Encode (take 2 (drop 8 v))"
    "hex_Encode (drop 10 u) = hex_Encode (drop 10 v)"
    by (simp_all add: String_def hex_Encode_length)
  then have "take 4 u = take 4 v" "take 2 (drop 4 u) = take 2 (drop 4 v)"
    "take 2 (drop 6 u) = take 2 (drop 6 v)" "take 2 (drop 8 u) = take 2 (drop 8 v)"
    "drop 10 u = drop 10 v"
    by (simp_all only: hex_Encode_inj)
  then show ?thesis using split [of u] split [of v] by simp
qed


lemma Get_success:
  "uuid_NewRandom w = Inr uid \<Longrightarrow>
   DefaultTokenProvider_Get w dtp =
     (Inr (String uid, None),
      dtp\<lparr>tokens := (tokens dtp)(String uid \<mapsto> Unix (Add (time_Now w) (token_ttl dtp)))\<rparr>)"
  by (simp add: DefaultTokenProvider_Get_def Let_def)

lemma Get_calls_Cons:
  assumes "uuid_NewRandom w = Inr uid"
  shows "snd (Get_calls (w # ws) dtp) =
           snd (Get_calls ws
             (dtp\<lparr>tokens := (tokens dtp)(String uid \<mapsto> Unix (Add (time_Now w) (token_ttl dtp)))\<rparr>))"
    and "fst (Get_calls (w # ws) dtp) =
           (case fst (Get_calls ws
                  (dtp\<lparr>tokens := (tokens dtp)(String uid \<mapsto> Unix (Add (time_Now w) (token_ttl dtp)))\<rparr>)) of
              Inl p \<Rightarrow> Inl p
            | Inr issued \<Rightarrow> Inr (String uid # issued))"
  by (simp_all add: Get_success [OF assms] split: prod.splits sum.splits)

lemma Get_calls_issued:
  "map uuid_NewRandom ws = map Inr uids \<Longrightarrow>
   fst (Get_calls ws dtp) = Inr (map String uids)
   \<and> token_ttl (snd (Get_calls ws dtp)) = token_ttl dtp
   \<and> dom (tokens (snd (Get_calls ws dtp))) = dom (tokens dtp) \<union> String ` set uids"
proof (induction ws arbitrary: uids dtp)
  case Nil
  then show ?case by simp
next
  case (Cons w ws)
  then obtain u us where uids: "uids = u # us" by (cases uids) auto
  with Cons.prems have h: "uuid_NewRandom w = Inr u" and t: "map uuid_NewRandom ws = map Inr us"
    by auto
  let ?dtp' = "dtp\<lparr>tokens := (tokens dtp)(String u \<mapsto> Unix (Add (time_Now w) (token_ttl dtp)))\<rparr>"
  from Cons.IH [OF t, of ?dtp'] show ?case
    by (auto simp add: Get_calls_Cons [OF h] uids simp del: Get_calls.simps)
qed

lemma Get_calls_other_entries:
  "map uuid_NewRandom ws = map Inr uids \<Longrightarrow> t \<notin> String ` set uids \<Longrightarrow>
   tokens (snd (Get_calls ws dtp)) t = tokens dtp t"
proof (induction ws arbitrary: uids dtp)
  case Nil
  then show ?case by simp
next
  case (Cons w ws)
  then obtain u us where uids: "uids = u # us" by (cases uids) auto
  with Cons.prems have h: "uuid_NewRandom w = Inr u" and t: "map uuid_NewRandom ws = map Inr us"
    and n: "t \<notin> String ` set us" and ne: "t \<noteq> String u"
    by auto
  let ?dtp' = "dtp\<lparr>tokens := (tokens dtp)(String u \<mapsto> Unix (Add (time_Now w) (token_ttl dtp)))\<rparr>"
  from Cons.IH [OF t n, of ?dtp'] ne show ?case
    by (simp add: Get_calls_Cons [OF h] del: Get_calls.simps)
qed

lemma Get_calls_own_entry:
  "map uuid_NewRandom ws = map Inr uids \<Longrightarrow> distinct (map String uids) \<Longrightarrow> i < length ws \<Longrightarrow>
   tokens (snd (Get_calls ws dtp)) (String (uids ! i)) =
     Some (Unix (Add (time_Now (ws ! i)) (token_ttl dtp)))"
proof (induction ws arbitrary: uids dtp i)
  case Nil
  then show ?case by simp
next
  case (Cons w ws)
  then obtain u us where uids: "uids = u # us" by (cases uids) auto
  with Cons.prems have h: "uuid_NewRandom w = Inr u" and t: "map uuid_NewRandom ws = map Inr us"
    and d: "distinct (map String us)" and n: "String u \<notin> String ` set us"
    by auto
  let ?dtp' = "dtp\<lparr>tokens := (tokens dtp)(String u \<mapsto> Unix (Add (time_Now w) (token_ttl dtp)))\<rparr>"
  have step: "snd (Get_calls (w # ws) dtp) = snd (Get_calls ws ?dtp')"
    by (rule Get_calls_Cons [OF h])
  show ?case
  proof (cases i)
    case 0
    then show ?thesis
      using Get_calls_other_entries [OF t n, of ?dtp'] by (simp add: step uids del: Get_calls.simps)
  next
    case (Suc j)
    with Cons.prems(3) have "j < length ws" by simp
    from Cons.IH [OF t d this, of ?dtp'] show ?thesis
      by (simp add: step uids Suc del: Get_calls.simps)
  qed
qed

lemma Get_calls_take:
  "map uuid_NewRandom ws = map Inr uids \<Longrightarrow> map uuid_NewRandom (take i ws) = map Inr (take i uids)"
  by (simp add: take_map [symmetric])

lemma Unix_mono: "t \<le> t' \<Longrightarrow> Unix t \<le> Unix t'"
  by (simp add: Unix_def zdiv_mono1)

text \<open>
  \<^verbatim>\<open>NewDefaultTokenProvider\<close> leaves \<^verbatim>\<open>token_ttl\<close> at zero. A token issued with a zero
  time to live expires in the second of its issue: no \<^verbatim>\<open>Check\<close> at that time or later
  accepts it.
\<close>

lemma zero_ttl_token_never_valid:
  assumes "token_ttl dtp = 0" and "uuid_NewRandom w = Inr uid" and "time_Now w \<le> now"
  shows "fst (DefaultTokenProvider_Check now (String uid) (snd (DefaultTokenProvider_Get w dtp)))
         = Some ErrInvalidToken"
  using Unix_mono [OF assms(3)] assms(1)
  by (simp add: Get_success [OF assms(2)] DefaultTokenProvider_Check_def Add_def)

text \<open>
  C8, as the code has it. \<^verbatim>\<open>Get\<close> stores the text form of the UUID it drew without
  looking it up first. For a sequence of successful calls whose UUIDs are pairwise distinct
  and whose text forms are not keys of the store at the start: the tokens returned are
  the text forms, pairwise distinct; none is a key of the store at the moment of its
  insertion; at the end each token still carries the expiry its own call wrote; and
  every other entry of the store is as it was.
\<close>

theorem Get_calls_distinct_uuids:
  assumes "map uuid_NewRandom ws = map Inr uids"
    and "\<forall>u\<in>set uids. length u = 16"
    and "distinct uids"
    and "\<forall>u\<in>set uids. tokens dtp (String u) = None"
  shows "fst (Get_calls ws dtp) = Inr (map String uids)
         \<and> distinct (map String uids)
         \<and> (\<forall>i<length ws. tokens (snd (Get_calls (take i ws) dtp)) (String (uids ! i)) = None)
         \<and> (\<forall>i<length ws. tokens (snd (Get_calls ws dtp)) (String (uids ! i)) =
               Some (Unix (Add (time_Now (ws ! i)) (token_ttl dtp))))
         \<and> (\<forall>t. t \<notin> String ` set uids \<longrightarrow> tokens (snd (Get_calls ws dtp)) t = tokens dtp t)"
proof -
  have len: "length uids = length ws"
    using assms(1) by (metis length_map)
  have "inj_on String (set uids)"
    using assms(2) by (auto intro!: inj_onI String_inj)
  with assms(3) have dist: "distinct (map String uids)"
    by (simp add: distinct_map)
  have fresh: "tokens (snd (Get_calls (take i ws) dtp)) (String (uids ! i)) = None"
    if "i < length ws" for i
  proof -
    have "String (uids ! i) \<notin> String ` set (take i uids)"
    proof
      assume "String (uids ! i) \<in> String ` set (take i uids)"
      then obtain j where j: "j < i" and e: "String (uids ! j) = String (uids ! i)"
        using that len by (auto simp: in_set_conv_nth)
      with dist that len have "j = i"
        by (metis (no_types, lifting) length_map less_trans nth_eq_iff_index_eq nth_map)
      with j show False by simp
    qed
    then have "tokens (snd (Get_calls (take i ws) dtp)) (String (uids ! i)) =
        tokens dtp (String (uids ! i))"
      by (rule Get_calls_other_entries [OF Get_calls_take [OF assms(1)]])
    also have "\<dots> = None" using assms(4) that len by simp
    finally show ?thesis .
  qed
  show ?thesis
    using Get_calls_issued [OF assms(1), of dtp] dist fresh
      Get_calls_own_entry [OF assms(1) dist, of _ dtp]
      Get_calls_other_entries [OF assms(1), of _ dtp]
    by simp
qed

theorem Get_calls_distinct_uuids_witness:
  "map uuid_NewRandom
     [\<lparr>time_Now = 0, uuid_NewRandom = Inr [0x12,0x34,0x56,0x78,0x9a,0xbc,0x4d,0xef,0x81,0x23,0x45,0x67,0x89,0xab,0xcd,0xef]\<rparr>,
      \<lparr>time_Now = 5000000000, uuid_NewRandom = Inr [0xff,0x34,0x56,0x78,0x9a,0xbc,0x4d,0xef,0x81,0x23,0x45,0x67,0x89,0xab,0xcd,0x00]\<rparr>]
   = map Inr [[0x12,0x34,0x56,0x78,0x9a,0xbc,0x4d,0xef,0x81,0x23,0x45,0x67,0x89,0xab,0xcd,0xef],
              [0xff,0x34,0x56,0x78,0x9a,0xbc,0x4d,0xef,0x81,0x23,0x45,0x67,0x89,0xab,0xcd,0x00]]
   \<and> distinct [[0x12,0x34,0x56,0x78,0x9a,0xbc,0x4d,0xef,0x81,0x23,0x45,0x67,0x89,0xab,0xcd,0xef],
               [0xff,0x34,0x56,0x78,0x9a,0xbc,0x4d,0xef,0x81,0x23,0x45,0x67,0x89,0xab,0xcd,0x00 :: byte]]
   \<and> fst (Get_calls
         [\<lparr>time_Now = 0, uuid_NewRandom = Inr [0x12,0x34,0x56,0x78,0x9a,0xbc,0x4d,0xef,0x81,0x23,0x45,0x67,0x89,0xab,0xcd,0xef]\<rparr>,
          \<lparr>time_Now = 5000000000, uuid_NewRandom = Inr [0xff,0x34,0x56,0x78,0x9a,0xbc,0x4d,0xef,0x81,0x23,0x45,0x67,0x89,0xab,0xcd,0x00]\<rparr>]
         \<lparr>tokens = Map.empty, token_ttl = 60000000000\<rparr>)
     = Inr [''12345678-9abc-4def-8123-456789abcdef'', ''ff345678-9abc-4def-8123-456789abcd00'']
   \<and> distinct [''12345678-9abc-4def-8123-456789abcdef'', ''ff345678-9abc-4def-8123-456789abcd00'']"
proof -
  let ?u0 = "[0x12,0x34,0x56,0x78,0x9a,0xbc,0x4d,0xef,0x81,0x23,0x45,0x67,0x89,0xab,0xcd,0xef] :: UUID"
  let ?u1 = "[0xff,0x34,0x56,0x78,0x9a,0xbc,0x4d,0xef,0x81,0x23,0x45,0x67,0x89,0xab,0xcd,0x00] :: UUID"
  let ?ws = "[\<lparr>time_Now = 0, uuid_NewRandom = Inr ?u0\<rparr>, \<lparr>time_Now = 5000000000, uuid_NewRandom = Inr ?u1\<rparr>]"
  let ?dtp = "\<lparr>tokens = Map.empty, token_ttl = 60000000000\<rparr>"
  have h1: "map uuid_NewRandom ?ws = map Inr [?u0, ?u1]" by simp
  have h2: "\<forall>u\<in>set [?u0, ?u1]. length u = 16" by simp
  have h3: "distinct [?u0, ?u1]" by simp
  have h4: "\<forall>u\<in>set [?u0, ?u1]. tokens ?dtp (String u) = None" by simp
  have s0: "String ?u0 = ''12345678-9abc-4def-8123-456789abcdef''"
    by (simp add: String_def hex_byte_def hextable_def)
  have s1: "String ?u1 = ''ff345678-9abc-4def-8123-456789abcd00''"
    by (simp add: String_def hex_byte_def hextable_def)
  from Get_calls_distinct_uuids [OF h1 h2 h3 h4]
  have "fst (Get_calls ?ws ?dtp) = Inr (map String [?u0, ?u1])"
    and "distinct (map String [?u0, ?u1])"
    by blast+
  then show ?thesis using h1 h3 by (simp only: s0 s1 list.map)
qed

text \<open>
  C8, as the claim states it, fails: when the generator draws the same UUID twice, the
  second \<^verbatim>\<open>Get\<close> returns the token of the first, a key of the store at that moment, and
  overwrites its expiry (60 becomes 65).
\<close>

theorem Get_same_uuid_counterexample:
  "Get_calls
     [\<lparr>time_Now = 0, uuid_NewRandom = Inr [0x12,0x34,0x56,0x78,0x9a,0xbc,0x4d,0xef,0x81,0x23,0x45,0x67,0x89,0xab,0xcd,0xef]\<rparr>,
      \<lparr>time_Now = 5000000000, uuid_NewRandom = Inr [0x12,0x34,0x56,0x78,0x9a,0xbc,0x4d,0xef,0x81,0x23,0x45,0x67,0x89,0xab,0xcd,0xef]\<rparr>]
     \<lparr>tokens = Map.empty, token_ttl = 60000000000\<rparr>
   = (Inr [''12345678-9abc-4def-8123-456789abcdef'', ''12345678-9abc-4def-8123-456789abcdef''],
      \<lparr>tokens = [''12345678-9abc-4def-8123-456789abcdef'' \<mapsto> 65], token_ttl = 60000000000\<rparr>)
   \<and> \<not> distinct [''12345678-9abc-4def-8123-456789abcdef'', ''12345678-9abc-4def-8123-456789abcdef'']
   \<and> snd (DefaultTokenProvider_Get
         \<lparr>time_Now = 0, uuid_NewRandom = Inr [0x12,0x34,0x56,0x78,0x9a,0xbc,0x4d,0xef,0x81,0x23,0x45,0x67,0x89,0xab,0xcd,0xef]\<rparr>
         \<lparr>tokens = Map.empty, token_ttl = 60000000000\<rparr>)
     = \<lparr>tokens = [''12345678-9abc-4def-8123-456789abcdef'' \<mapsto> 60], token_ttl = 60000000000\<rparr>"
  by (simp add: DefaultTokenProvider_Get_def String_def hex_byte_def hextable_def Unix_def Add_def Let_def)

section \<open>Properties of the sweep\<close>






section \<open>Properties of the token sources\<close>

lemma HeaderTokenSource_unset: "Header r ''X-Csrf-Token'' = None \<Longrightarrow> HeaderTokenSource r = Inr []"
  by (simp add: HeaderTokenSource_def Header_Get_def)

lemma FormTokenSource_absent: "Form r field = None \<Longrightarrow> FormTokenSource field r = Inr []"
  by (simp add: FormTokenSource_def FormValue_def)

text \<open>
  C3. On a request whose context holds no value under the package's key,
  \<^verbatim>\<open>ContextTokenSource\<close> panics in its type assertion instead of returning the empty
  string. (The header and form sources do return the empty string on an absent value, by
  the two lemmas above.)
\<close>

theorem ContextTokenSource_absent_panics:
  "ContextTokenSource \<lparr>Context = Map.empty, Header = Map.empty, Form = Map.empty\<rparr> = Inl PanicTypeAssertion"
  by (simp add: ContextTokenSource_def Context_Value_def)

section \<open>Properties of the validator\<close>

lemma Validate_loop_all_empty:
  "\<forall>source\<in>set sources. source r = Inr [] \<Longrightarrow> Validate_loop r [] sources = Inr (Inr [])"
  by (induction sources) auto

lemma Validate_loop_panic_from_source:
  "Validate_loop r token sources = Inl p \<Longrightarrow> \<exists>source\<in>set sources. source r = Inl p"
  by (induction sources arbitrary: token) (auto split: if_splits sum.splits)

lemma Validate_loop_reference:
  "token \<noteq> [] \<Longrightarrow> map (\<lambda>source. source r) sources = map Inr cs \<Longrightarrow>
   Validate_loop r token sources =
     (if \<forall>x\<in>set cs. x = token then Inr (Inr token)
      else Inr (Inl errInconsistentTokenBetweenSources))"
proof (induction sources arbitrary: cs)
  case Nil
  then show ?case by simp
next
  case (Cons source sources)
  then obtain x xs where cs: "cs = x # xs" by (cases cs) auto
  with Cons.prems have h: "source r = Inr x" and t: "map (\<lambda>source. source r) sources = map Inr xs"
    by auto
  show ?case using Cons.IH [OF Cons.prems(1) t] Cons.prems(1) h cs by auto
qed

lemma Validate_loop_candidates:
  "map (\<lambda>source. source r) sources = map Inr cs \<Longrightarrow>
   Validate_loop r [] sources =
     (case dropWhile (\<lambda>x. x = []) cs of
        [] \<Rightarrow> Inr (Inr [])
      | v # rest \<Rightarrow>
          if \<forall>x\<in>set rest. x = v then Inr (Inr v)
          else Inr (Inl errInconsistentTokenBetweenSources))"
proof (induction sources arbitrary: cs)
  case Nil
  then show ?case by simp
next
  case (Cons source sources)
  then obtain x xs where cs: "cs = x # xs" by (cases cs) auto
  with Cons.prems have h: "source r = Inr x" and t: "map (\<lambda>source. source r) sources = map Inr xs"
    by auto
  show ?case
  proof (cases "x = []")
    case True
    then show ?thesis using Cons.IH [OF t] h cs by simp
  next
    case False
    then show ?thesis using Validate_loop_reference [OF False t] h cs by simp
  qed
qed




text \<open>
  C5. With at least one source and every source returning the empty string,
  \<^verbatim>\<open>Validate\<close> returns \<^verbatim>\<open>ErrInvalidToken\<close> and the state of the provider, whatever
  provider it is, is the one before the call: \<^verbatim>\<open>Check\<close> is not called.
\<close>

theorem Validate_all_empty:
  assumes "sources \<noteq> []" and "\<forall>source\<in>set sources. source r = Inr []"
  shows "Validate c now r sources s = (Inr (Some ErrInvalidToken), s)"
  using assms by (simp add: Validate_def Validate_loop_all_empty)

theorem Validate_all_empty_witness:
  "[HeaderTokenSource, FormTokenSource ''csrf''] \<noteq> []
   \<and> HeaderTokenSource \<lparr>Context = Map.empty, Header = Map.empty, Form = Map.empty\<rparr> = Inr []
   \<and> FormTokenSource ''csrf'' \<lparr>Context = Map.empty, Header = Map.empty, Form = Map.empty\<rparr> = Inr []
   \<and> Validate (New counting_provider) 0
        \<lparr>Context = Map.empty, Header = Map.empty, Form = Map.empty\<rparr>
        [HeaderTokenSource, FormTokenSource ''csrf''] (0, 0)
      = (Inr (Some ErrInvalidToken), (0, 0))"
  using Validate_all_empty [of "[HeaderTokenSource, FormTokenSource ''csrf'']"
      "\<lparr>Context = Map.empty, Header = Map.empty, Form = Map.empty\<rparr>"
      "New counting_provider" "0" "(0, 0)"]
  by (simp add: HeaderTokenSource_def Header_Get_def FormTokenSource_def FormValue_def)

text \<open>
  C6. When two of the candidates are non-empty and differ, \<^verbatim>\<open>Validate\<close> returns the
  inconsistency error, a value other than \<^verbatim>\<open>ErrInvalidToken\<close>, and the state of the
  provider, whatever provider it is, is the one before the call.
\<close>

theorem Validate_inconsistent:
  assumes "map (\<lambda>source. source r) sources = map Inr cs"
    and "a \<in> set cs" and "b \<in> set cs" and "a \<noteq> []" and "b \<noteq> []" and "a \<noteq> b"
  shows "Validate c now r sources s = (Inr (Some errInconsistentTokenBetweenSources), s)
         \<and> errInconsistentTokenBetweenSources \<noteq> ErrInvalidToken"
proof -
  from assms(2) have ne: "sources \<noteq> []" using assms(1) by auto
  have mem: "x \<in> set (dropWhile (\<lambda>x. x = []) cs)" if "x \<in> set cs" "x \<noteq> []" for x
    using that by (induction cs) auto
  from mem [OF assms(2,4)] obtain v rest where d: "dropWhile (\<lambda>x. x = []) cs = v # rest"
    by (cases "dropWhile (\<lambda>x. x = []) cs") auto
  from mem [OF assms(2,4)] mem [OF assms(3,5)] d assms(6)
  have "\<not> (\<forall>x\<in>set rest. x = v)" by (cases "a = v") auto
  with d have "Validate_loop r [] sources = Inr (Inl errInconsistentTokenBetweenSources)"
    using Validate_loop_candidates [OF assms(1)] by simp
  with ne show ?thesis by (simp add: Validate_def)
qed

theorem Validate_inconsistent_witness:
  "map (\<lambda>source. source \<lparr>Context = Map.empty, Header = [''X-Csrf-Token'' \<mapsto> [''abc'']],
                           Form = [''csrf'' \<mapsto> [''xyz'']]\<rparr>)
     [HeaderTokenSource, FormTokenSource ''csrf''] = map Inr [''abc'', ''xyz'']
   \<and> ''abc'' \<in> set [''abc'', ''xyz''] \<and> ''xyz'' \<in> set [''abc'', ''xyz'']
   \<and> ''abc'' \<noteq> [] \<and> ''xyz'' \<noteq> [] \<and> ''abc'' \<noteq> ''xyz''
   \<and> Validate (New counting_provider) 0
        \<lparr>Context = Map.empty, Header = [''X-Csrf-Token'' \<mapsto> [''abc'']],
         Form = [''csrf'' \<mapsto> [''xyz'']]\<rparr>
        [HeaderTokenSource, FormTokenSource ''csrf''] (0, 0)
      = (Inr (Some errInconsistentTokenBetweenSources), (0, 0))"
  using Validate_inconsistent [of
      "\<lparr>Context = Map.empty, Header = [''X-Csrf-Token'' \<mapsto> [''abc'']],
        Form = [''csrf'' \<mapsto> [''xyz'']]\<rparr>"
      "[HeaderTokenSource, FormTokenSource ''csrf'']" "[''abc'', ''xyz'']" "''abc''" "''xyz''"
      "New counting_provider" "0" "(0, 0)"]
  by (simp add: HeaderTokenSource_def Header_Get_def FormTokenSource_def FormValue_def)

text \<open>
  C9. With no source \<^verbatim>\<open>Validate\<close> panics with its message and returns no error value.
  With at least one source that panic is not raised: whenever \<^verbatim>\<open>Validate\<close> panics
  then, the panic is that of one of the sources.
\<close>

theorem Validate_no_sources_panics:
  "Validate c now r [] s = (Inl (PanicString ''`sources` paramter is required''), s)
   \<and> (sources \<noteq> [] \<longrightarrow> Validate c now r sources s = (Inl p, s') \<longrightarrow>
        (\<exists>source\<in>set sources. source r = Inl p))"
proof -
  have "\<exists>source\<in>set sources. source r = Inl p"
    if "sources \<noteq> []" and "Validate c now r sources s = (Inl p, s')"
  proof -
    from that have "Validate_loop r [] sources = Inl p"
      by (auto simp: Validate_def split: sum.splits if_splits prod.splits)
    then show ?thesis by (rule Validate_loop_panic_from_source)
  qed
  then show ?thesis by (simp add: Validate_def)
qed

theorem Validate_no_sources_panics_witness:
  "[ContextTokenSource] \<noteq> []
   \<and> Validate (New counting_provider) 0
        \<lparr>Context = Map.empty, Header = Map.empty, Form = Map.empty\<rparr> [ContextTokenSource] (0, 0)
      = (Inl PanicTypeAssertion, (0, 0))
   \<and> (\<exists>source\<in>set [ContextTokenSource].
         source \<lparr>Context = Map.empty, Header = Map.empty, Form = Map.empty\<rparr> = Inl PanicTypeAssertion)
   \<and> Validate (New counting_provider) 0
        \<lparr>Context = Map.empty, Header = Map.empty, Form = Map.empty\<rparr> [] (0, 0)
      = (Inl (PanicString ''`sources` paramter is required''), (0, 0))"
  using Validate_no_sources_panics [of "New counting_provider"
      "0"
      "\<lparr>Context = Map.empty, Header = Map.empty, Form = Map.empty\<rparr>" "(0, 0)"
      "[ContextTokenSource]" PanicTypeAssertion "(0, 0)"]
  by (simp add: Validate_def ContextTokenSource_def Context_Value_def)

end
